theory Spec2Isabelle
  imports Main "HOL-Library.Multiset"
begin

section \<open>Positions, ranges and text edits\<close>

text \<open>
  The workspace-edit handler of \<^verbatim>\<open>src/unnamed/part_002\<close> (class
  \<^verbatim>\<open>WorkspaceEditHandler\<close>) works on the \<^verbatim>\<open>Point\<close>, \<^verbatim>\<open>Range\<close> and
  \<^verbatim>\<open>TextBuffer\<close> objects of the editor (imported from the package \<^verbatim>\<open>atom\<close>, not
  part of this repository); of these the theory has what the handler calls. Rows and
  columns are the unsigned integers of the protocol. The field \<^verbatim>\<open>end\<close> of a range
  is written \<open>end'\<close>, since \<^verbatim>\<open>end\<close> is a keyword.
\<close>

record Point =
  row :: nat
  column :: nat

record Range =
  start :: Point
  end' :: Point

text \<open>
  \<^verbatim>\<open>Point.compare\<close>: rows first, then columns; the result is \<open>-1\<close>, \<open>0\<close> or \<open>1\<close>.
\<close>

definition Point_compare :: "Point \<Rightarrow> Point \<Rightarrow> int" where
  "Point_compare p other =
     (if row p > row other then 1
      else if row p < row other then -1
      else if column p > column other then 1
      else if column p < column other then -1
      else 0)"

text \<open>
  \<^verbatim>\<open>Range.compare\<close>: the starts are compared; when they are equal the result is
  \<^verbatim>\<open>other.end.compare(this.end)\<close>, so that of two ranges with one start the longer
  one is the smaller.
\<close>

definition Range_compare :: "Range \<Rightarrow> Range \<Rightarrow> int" where
  "Range_compare r other =
     (let v = Point_compare (start r) (start other)
      in if v \<noteq> 0 then v else Point_compare (end' other) (end' r))"

text \<open>The protocol's text edit, and the editor's text edit it is converted to.\<close>

record lsp_TextEdit =
  range :: Range
  newText :: string

record TextEdit =
  oldRange :: Range
  atomNewText :: string

text \<open>
  Modelled from the spec: \<^verbatim>\<open>Convert.convertLsTextEdit\<close> lives in \<^verbatim>\<open>lib/convert.ts\<close>,
  which is not among the sources. By the data model of the specification a text edit
  is a range in document coordinates (row, column) plus a replacement string, with
  the invariant that the start is not after the end; the conversion keeps range and
  string. Where a property needs the invariant, it is the hypothesis \<open>wellFormed\<close>.
\<close>

definition convertLsTextEdit :: "lsp_TextEdit \<Rightarrow> TextEdit" where
  "convertLsTextEdit textEdit =
     \<lparr>oldRange = range textEdit, atomNewText = newText textEdit\<rparr>"

section \<open>The document buffer\<close>

text \<open>
  The editor's \<^verbatim>\<open>TextBuffer\<close> is a collaborator of the handler, which uses its
  methods \<^verbatim>\<open>getPath\<close>, \<^verbatim>\<open>lineLengthForRow\<close>, \<^verbatim>\<open>setTextInRange\<close>,
  \<^verbatim>\<open>createCheckpoint\<close>, \<^verbatim>\<open>groupChangesSinceCheckpoint\<close> and
  \<^verbatim>\<open>revertToCheckpoint\<close>. The buffer is modelled by its rows (the text between
  line feeds; the rows of a buffer are never empty as a list, and no row holds a line
  feed), the path of its file, and its undo history as far as the handler uses it: a
  stack of checkpoints, newest first, each holding its number and the rows at the
  moment it was created. Line endings other than the line feed and their
  normalisation are outside the model.
\<close>

record TextBuffer =
  path :: "string option"
  lines :: "string list"
  checkpoints :: "(nat \<times> string list) list"
  nextCheckpointId :: nat

definition getPath :: "TextBuffer \<Rightarrow> string option" where
  "getPath b = path b"

definition getLastRow :: "TextBuffer \<Rightarrow> nat" where
  "getLastRow b = length (lines b) - 1"

definition lineForRow :: "TextBuffer \<Rightarrow> nat \<Rightarrow> string" where
  "lineForRow b r = (if r < length (lines b) then lines b ! r else [])"

text \<open>\<^verbatim>\<open>lineLengthForRow\<close> has no value for a row the buffer does not have.\<close>

definition lineLengthForRow :: "TextBuffer \<Rightarrow> nat \<Rightarrow> nat option" where
  "lineLengthForRow b r =
     (if r < length (lines b) then Some (length (lines b ! r)) else None)"

fun joinLines :: "string list \<Rightarrow> string" where
  "joinLines [] = []"
| "joinLines [l] = l"
| "joinLines (l # ls) = l @ CHR 0x0A # joinLines ls"

definition getText :: "TextBuffer \<Rightarrow> string" where
  "getText b = joinLines (lines b)"

fun splitLines :: "string \<Rightarrow> string list" where
  "splitLines [] = [[]]"
| "splitLines (c # cs) =
     (if c = CHR 0x0A then [] # splitLines cs
      else (case splitLines cs of
              [] \<Rightarrow> [[c]]
            | l # ls \<Rightarrow> (c # l) # ls))"

definition getEndPosition :: "TextBuffer \<Rightarrow> Point" where
  "getEndPosition b =
     \<lparr>row = getLastRow b, column = length (lineForRow b (getLastRow b))\<rparr>"

text \<open>
  \<^verbatim>\<open>clipPosition\<close>: a position below the last row becomes the end of the buffer, a
  column beyond the end of its row becomes the end of the row.
\<close>

definition clipPosition :: "TextBuffer \<Rightarrow> Point \<Rightarrow> Point" where
  "clipPosition b p =
     (if row p > getLastRow b then getEndPosition b
      else if column p > length (lineForRow b (row p))
        then \<lparr>row = row p, column = length (lineForRow b (row p))\<rparr>
      else p)"

text \<open>
  \<^verbatim>\<open>setTextInRange\<close> clips the range to the buffer and replaces the text between the
  clipped start and the clipped end.
\<close>

definition setTextInRange :: "TextBuffer \<Rightarrow> Range \<Rightarrow> string \<Rightarrow> TextBuffer" where
  "setTextInRange b r text =
     (let s = clipPosition b (start r);
          e = clipPosition b (end' r);
          middle = take (column s) (lineForRow b (row s)) @ text
                     @ drop (column e) (lineForRow b (row e))
      in b\<lparr>lines := take (row s) (lines b) @ splitLines middle
                        @ drop (Suc (row e)) (lines b)\<rparr>)"

text \<open>
  \<^verbatim>\<open>createCheckpoint\<close> returns a fresh number and remembers the rows under it.
\<close>

definition createCheckpoint :: "TextBuffer \<Rightarrow> nat \<times> TextBuffer" where
  "createCheckpoint b =
     (nextCheckpointId b,
      b\<lparr>checkpoints := (nextCheckpointId b, lines b) # checkpoints b,
        nextCheckpointId := Suc (nextCheckpointId b)\<rparr>)"

text \<open>
  \<^verbatim>\<open>revertToCheckpoint\<close> restores the rows of the checkpoint and drops it, with
  everything newer, from the history; with an unknown checkpoint it does nothing and
  answers \<open>False\<close>.
\<close>

definition revertToCheckpoint :: "TextBuffer \<Rightarrow> nat \<Rightarrow> bool \<times> TextBuffer" where
  "revertToCheckpoint b c =
     (case dropWhile (\<lambda>e. fst e \<noteq> c) (checkpoints b) of
        [] \<Rightarrow> (False, b)
      | e # older \<Rightarrow> (True, b\<lparr>lines := snd e, checkpoints := older\<rparr>))"

text \<open>
  \<^verbatim>\<open>groupChangesSinceCheckpoint\<close> makes one undo step of everything after the
  checkpoint: the text stays, the newer checkpoints go, the checkpoint itself stays.
\<close>

definition groupChangesSinceCheckpoint :: "TextBuffer \<Rightarrow> nat \<Rightarrow> bool \<times> TextBuffer" where
  "groupChangesSinceCheckpoint b c =
     (case dropWhile (\<lambda>e. fst e \<noteq> c) (checkpoints b) of
        [] \<Rightarrow> (False, b)
      | e # older \<Rightarrow> (True, b\<lparr>checkpoints := e # older\<rparr>))"

section \<open>Applying one document's batch\<close>

datatype error =
  OverlapError string
| OutOfRangeError string nat nat
| IoError string

text \<open>
  \<^verbatim>\<open>validateEdit\<close>: the error \<^verbatim>\<open>Found overlapping edit ranges in <path>\<close> is
  \<open>OverlapError path\<close>, the error \<^verbatim>\<open>Out of range edit on <path>:<row+1>:<col+1>\<close>
  is \<open>OutOfRangeError path (row + 1) (col + 1)\<close>.
\<close>

definition validateEdit :: "TextBuffer \<Rightarrow> TextEdit \<Rightarrow> TextEdit option \<Rightarrow> error + unit" where
  "validateEdit buffer edit prevEdit =
     (let path = (case getPath buffer of None \<Rightarrow> [] | Some p \<Rightarrow> p)
      in if (case prevEdit of
               None \<Rightarrow> False
             | Some prev \<Rightarrow> Point_compare (end' (oldRange edit)) (start (oldRange prev)) > 0)
         then Inl (OverlapError path)
         else
           (let startRow = row (start (oldRange edit));
                startCol = column (start (oldRange edit))
            in case lineLengthForRow buffer startRow of
                 None \<Rightarrow> Inl (OutOfRangeError path (startRow + 1) (startCol + 1))
               | Some lineLength \<Rightarrow>
                   if startCol > lineLength
                   then Inl (OutOfRangeError path (startRow + 1) (startCol + 1))
                   else Inr ()))"

text \<open>
  \<^verbatim>\<open>Array.prototype.sort\<close> with a comparator is a stable sort: \<open>a\<close> stays before
  \<open>b\<close> unless the comparator puts \<open>b\<close> first.
\<close>

fun insort_cmp :: "('a \<Rightarrow> 'a \<Rightarrow> int) \<Rightarrow> 'a \<Rightarrow> 'a list \<Rightarrow> 'a list" where
  "insort_cmp cmp x [] = [x]"
| "insort_cmp cmp x (y # ys) =
     (if cmp x y \<le> 0 then x # y # ys else y # insort_cmp cmp x ys)"

definition sort_cmp :: "('a \<Rightarrow> 'a \<Rightarrow> int) \<Rightarrow> 'a list \<Rightarrow> 'a list" where
  "sort_cmp cmp xs = foldr (insort_cmp cmp) xs []"

text \<open>The comparator of the handler: \<^verbatim>\<open>-edit1.oldRange.compare(edit2.oldRange)\<close>.\<close>

definition reverseOrder :: "TextEdit \<Rightarrow> TextEdit \<Rightarrow> int" where
  "reverseOrder edit1 edit2 = - Range_compare (oldRange edit1) (oldRange edit2)"

text \<open>
  The \<^verbatim>\<open>reduce\<close> of \<^verbatim>\<open>handleTextDocumentEdit\<close>: every edit is validated against
  the buffer as it is then and against the edit before it, and applied at once. An
  exception leaves the loop with the buffer as the edits so far have made it.
\<close>

fun reduceEdits :: "TextBuffer \<Rightarrow> TextEdit option \<Rightarrow> TextEdit list \<Rightarrow> error \<times> TextBuffer + TextBuffer" where
  "reduceEdits buffer previous [] = Inr buffer"
| "reduceEdits buffer previous (current # rest) =
     (case validateEdit buffer current previous of
        Inl err \<Rightarrow> Inl (err, buffer)
      | Inr _ \<Rightarrow>
          reduceEdits (setTextInRange buffer (oldRange current) (atomNewText current))
            (Some current) rest)"

record VersionedTextDocumentIdentifier =
  uri :: string
  version :: "int option"

record TextDocumentEdit =
  textDocument :: VersionedTextDocumentIdentifier
  edits :: "lsp_TextEdit list"

text \<open>
  \<^verbatim>\<open>handleTextDocumentEdit\<close> returns the checkpoint or throws; in both cases the
  buffer has changed (at least its history), so the buffer is returned with the result.
\<close>

definition handleTextDocumentEdit :: "TextBuffer \<Rightarrow> TextDocumentEdit \<Rightarrow> (error + nat) \<times> TextBuffer" where
  "handleTextDocumentEdit buffer edit =
     (let atomEdits = map convertLsTextEdit (edits edit);
          (checkpoint, buffer1) = createCheckpoint buffer
      in case reduceEdits buffer1 None (sort_cmp reverseOrder atomEdits) of
           Inr buffer2 \<Rightarrow> (Inr checkpoint, snd (groupChangesSinceCheckpoint buffer2 checkpoint))
         | Inl (err, buffer2) \<Rightarrow> (Inl err, snd (revertToCheckpoint buffer2 checkpoint)))"

text \<open>A buffer that holds the given text and has no history yet.\<close>

definition bufferOfText :: "string option \<Rightarrow> string \<Rightarrow> TextBuffer" where
  "bufferOfText p text =
     \<lparr>path = p, lines = splitLines text, checkpoints = [], nextCheckpointId = 1\<rparr>"

definition mkPoint :: "nat \<Rightarrow> nat \<Rightarrow> Point" where
  "mkPoint r c = \<lparr>row = r, column = c\<rparr>"

definition mkEdit :: "nat \<times> nat \<Rightarrow> nat \<times> nat \<Rightarrow> string \<Rightarrow> lsp_TextEdit" where
  "mkEdit s e text =
     \<lparr>range = \<lparr>start = mkPoint (fst s) (snd s), end' = mkPoint (fst e) (snd e)\<rparr>,
      newText = text\<rparr>"

definition mkBatch :: "string \<Rightarrow> lsp_TextEdit list \<Rightarrow> TextDocumentEdit" where
  "mkBatch u es = \<lparr>textDocument = \<lparr>uri = u, version = None\<rparr>, edits = es\<rparr>"

section \<open>Normalising the two wire shapes\<close>

text \<open>
  A property of a JavaScript object is absent, or present with the value
  \<^verbatim>\<open>undefined\<close> (or \<^verbatim>\<open>null\<close>), or present with a proper value.
  \<^verbatim>\<open>hasOwnProperty\<close> asks for presence only.
\<close>

datatype 'a property = Absent | Undefined | Present 'a

definition hasOwnProperty :: "'a property \<Rightarrow> bool" where
  "hasOwnProperty p = (p \<noteq> Absent)"

text \<open>\<^verbatim>\<open>p || []\<close> on a property that holds an array, if it holds anything.\<close>

definition orEmpty :: "'a list property \<Rightarrow> 'a list" where
  "orEmpty p = (case p of Present xs \<Rightarrow> xs | _ \<Rightarrow> [])"

text \<open>
  The entries of \<^verbatim>\<open>documentChanges\<close>: a text-document batch (it has \<^verbatim>\<open>edits\<close>)
  or a resource operation with its \<^verbatim>\<open>kind\<close>.
\<close>

datatype DocumentChange =
  EditDocument TextDocumentEdit
| CreateFile string
| RenameFile string string
| DeleteFile string

text \<open>
  The legacy \<^verbatim>\<open>changes\<close> object is the list of its entries in the order in which
  \<^verbatim>\<open>Object.keys\<close> enumerates them; the keys of an object are distinct.
\<close>

record WorkspaceEdit =
  documentChanges :: "DocumentChange list property"
  changes :: "(string \<times> lsp_TextEdit list) list property"

definition legacyBatch :: "string \<times> lsp_TextEdit list \<Rightarrow> DocumentChange" where
  "legacyBatch entry =
     EditDocument \<lparr>textDocument = \<lparr>uri = fst entry, version = None\<rparr>, edits = snd entry\<rparr>"

definition normalizeChanges :: "WorkspaceEdit \<Rightarrow> DocumentChange list" where
  "normalizeChanges workspaceEdit =
     (let changes0 = orEmpty (documentChanges workspaceEdit)
      in if \<not> hasOwnProperty (documentChanges workspaceEdit)
            \<and> hasOwnProperty (changes workspaceEdit)
         then changes0 @ map legacyBatch (orEmpty (changes workspaceEdit))
         else changes0)"

section \<open>Resource operations\<close>

text \<open>
  The file system is a map from path names to what is there: a file with its
  contents, or a directory. The root and the working directory always exist. Path
  names are compared as strings: the normalisation of repeated slashes and the
  resolution of a relative path against the working directory are outside the model,
  and so are permissions. Of the failures of the calls of \<^verbatim>\<open>fs.promises\<close> the
  model has the missing file, the missing directory of the target, and the target
  that is a directory.
\<close>

datatype node = File string | Directory

type_synonym filesystem = "string \<rightharpoonup> node"

text \<open>
  \<^verbatim>\<open>path.dirname\<close>: the path without its last component and without the slashes
  before it; \<^verbatim>\<open>.\<close> for a path of one component, \<^verbatim>\<open>/\<close> for a component right
  under the root.
\<close>

definition dirname :: "string \<Rightarrow> string" where
  "dirname p =
     (let trimmed = dropWhile (\<lambda>c. c = CHR ''/'') (rev p);
          parent = rev (dropWhile (\<lambda>c. c = CHR ''/'') (dropWhile (\<lambda>c. c \<noteq> CHR ''/'') trimmed))
      in if CHR ''/'' \<in> set trimmed then (if parent = [] then ''/'' else parent)
         else if CHR ''/'' \<in> set p then ''/''
         else ''.'')"

definition directoryExists :: "filesystem \<Rightarrow> string \<Rightarrow> bool" where
  "directoryExists fs d = (d = ''/'' \<or> d = ''.'' \<or> fs d = Some Directory)"

text \<open>\<^verbatim>\<open>unlink\<close> removes a file; it fails when there is no file of that name.\<close>

definition unlink :: "filesystem \<Rightarrow> string \<Rightarrow> error + filesystem" where
  "unlink fs p =
     (case fs p of
        Some (File content) \<Rightarrow> Inr (fs(p := None))
      | _ \<Rightarrow> Inl (IoError p))"

text \<open>
  \<^verbatim>\<open>rename\<close> fails when the source is missing or the directory of the target
  does not exist. What lies below a renamed directory is not followed.
\<close>

definition rename :: "filesystem \<Rightarrow> string \<Rightarrow> string \<Rightarrow> error + filesystem" where
  "rename fs oldPath newPath =
     (case fs oldPath of
        None \<Rightarrow> Inl (IoError oldPath)
      | Some n \<Rightarrow>
          if directoryExists fs (dirname newPath)
          then Inr ((fs(oldPath := None))(newPath \<mapsto> n))
          else Inl (IoError newPath))"

text \<open>
  \<^verbatim>\<open>writeFile\<close> creates the file or replaces its contents; it fails when the
  directory of the path does not exist, or when the path is a directory.
\<close>

definition writeFile :: "filesystem \<Rightarrow> string \<Rightarrow> string \<Rightarrow> error + filesystem" where
  "writeFile fs p content =
     (if directoryExists fs (dirname p) \<and> fs p \<noteq> Some Directory
      then Inr (fs(p \<mapsto> File content))
      else Inl (IoError p))"

text \<open>
  \<^verbatim>\<open>handleResourceOperation\<close>. \<^verbatim>\<open>Convert.uriToPath\<close> is in \<^verbatim>\<open>lib/convert.ts\<close>,
  which is not among the sources: it is the parameter \<open>uriToPath\<close>. A change that is
  none of the three kinds falls through all branches.
\<close>

fun handleResourceOperation :: "(string \<Rightarrow> string) \<Rightarrow> DocumentChange \<Rightarrow> filesystem \<Rightarrow> error + filesystem" where
  "handleResourceOperation uriToPath (DeleteFile u) fs = unlink fs (uriToPath u)"
| "handleResourceOperation uriToPath (RenameFile oldUri newUri) fs =
     rename fs (uriToPath oldUri) (uriToPath newUri)"
| "handleResourceOperation uriToPath (CreateFile u) fs = writeFile fs u []"
| "handleResourceOperation uriToPath (EditDocument e) fs = Inr fs"

text \<open>
  A resolution of file URIs for the concrete scenarios: the scheme \<^verbatim>\<open>file://\<close> is
  stripped, any other string is its own path.
\<close>

definition fileUriToPath :: "string \<Rightarrow> string" where
  "fileUriToPath u = (if take 7 u = ''file://'' then drop 7 u else u)"

section \<open>The coordinator\<close>

text \<open>
  The world of one call: the buffer the workspace opens for each path (the
  \<^verbatim>\<open>getBuffer\<close> of the handler is \<open>buffers w (uriToPath uri)\<close>), the file system,
  the error notifications shown, and the rejections of promises that nothing
  handles.
\<close>

record World =
  buffers :: "string \<Rightarrow> TextBuffer"
  files :: filesystem
  notifications :: "error list"
  unhandledRejections :: "error list"

fun isTextDocumentEdit :: "DocumentChange \<Rightarrow> bool" where
  "isTextDocumentEdit (EditDocument e) = True"
| "isTextDocumentEdit _ = False"

text \<open>
  \<^verbatim>\<open>changes.map(async (edit) => ...)\<close> runs every task up to its first
  \<^verbatim>\<open>await\<close>. A text-document task stops at \<^verbatim>\<open>await getBuffer\<close>. A resource task
  calls \<^verbatim>\<open>handleResourceOperation\<close> and is finished: the promise it gets back
  is neither awaited nor returned, so its rejection reaches nobody. File-system
  calls take effect in the order they are issued.
\<close>

definition launch :: "(string \<Rightarrow> string) \<Rightarrow> World \<Rightarrow> DocumentChange \<Rightarrow> World" where
  "launch uriToPath w edit =
     (if isTextDocumentEdit edit then w
      else (case handleResourceOperation uriToPath edit (files w) of
              Inl err \<Rightarrow> w\<lparr>unhandledRejections := unhandledRejections w @ [err]\<rparr>
            | Inr fs \<Rightarrow> w\<lparr>files := fs\<rparr>))"

text \<open>
  The state of a call: the world, the array \<^verbatim>\<open>checkpoints\<close> (a buffer is named
  by its path), the reason of the first rejected task (the one \<^verbatim>\<open>Promise.all\<close>
  rejects with), the value of \<^verbatim>\<open>applied\<close> once it is known, and the number of
  task continuations that still run between the first rejection and the
  \<^verbatim>\<open>catch\<close> handler.
\<close>

record Coordinator =
  world :: World
  recorded :: "(string \<times> nat) list"
  rejection :: "error option"
  applied :: "bool option"
  wait :: nat

text \<open>The rest of a text-document task, once its buffer is there.\<close>

definition resume :: "(string \<Rightarrow> string) \<Rightarrow> Coordinator \<Rightarrow> DocumentChange \<Rightarrow> Coordinator" where
  "resume uriToPath st change =
     (case change of
        EditDocument edit \<Rightarrow>
          (let p = uriToPath (uri (textDocument edit));
               (res, buffer) = handleTextDocumentEdit (buffers (world st) p) edit;
               w = (world st)\<lparr>buffers := (buffers (world st))(p := buffer)\<rparr>
           in case res of
                Inr checkpoint \<Rightarrow> st\<lparr>world := w, recorded := recorded st @ [(p, checkpoint)]\<rparr>
              | Inl err \<Rightarrow>
                  st\<lparr>world := w,
                     rejection := (case rejection st of None \<Rightarrow> Some err | Some first \<Rightarrow> Some first)\<rparr>)
      | _ \<Rightarrow> st)"

definition revertRecorded :: "World \<Rightarrow> string \<times> nat \<Rightarrow> World" where
  "revertRecorded w entry =
     w\<lparr>buffers := (buffers w)(fst entry := snd (revertToCheckpoint (buffers w (fst entry)) (snd entry)))\<rparr>"

text \<open>The \<^verbatim>\<open>catch\<close> handler: notify, revert what has been recorded, answer false.\<close>

definition catchHandler :: "Coordinator \<Rightarrow> error \<Rightarrow> Coordinator" where
  "catchHandler st err =
     st\<lparr>world := foldl revertRecorded
                   ((world st)\<lparr>notifications := notifications (world st) @ [err]\<rparr>)
                   (recorded st),
        applied := Some False\<rparr>"

text \<open>
  After a continuation: if a task has been rejected and the handler has not run yet,
  it runs now, or after \<open>wait\<close> more continuations.
\<close>

definition afterTask :: "Coordinator \<Rightarrow> Coordinator" where
  "afterTask st =
     (case rejection st of
        None \<Rightarrow> st
      | Some err \<Rightarrow>
          if applied st \<noteq> None then st
          else if wait st = 0 then catchHandler st err
          else st\<lparr>wait := wait st - 1\<rparr>)"

text \<open>When no task is left: \<^verbatim>\<open>Promise.all\<close> settles, if it has not yet.\<close>

definition settle :: "Coordinator \<Rightarrow> Coordinator" where
  "settle st =
     (if applied st \<noteq> None then st
      else (case rejection st of
              None \<Rightarrow> st\<lparr>applied := Some True\<rparr>
            | Some err \<Rightarrow> catchHandler st err))"

fun runTasks :: "(string \<Rightarrow> string) \<Rightarrow> DocumentChange list \<Rightarrow> nat list \<Rightarrow> Coordinator \<Rightarrow> Coordinator" where
  "runTasks uriToPath ops [] st = settle st"
| "runTasks uriToPath ops (i # rest) st =
     runTasks uriToPath ops rest (afterTask (resume uriToPath st (ops ! i)))"

text \<open>
  The order in which the buffers of the text-document tasks arrive is not in the
  hands of the handler. It is given by a list of task numbers: the tasks named
  there come first, in that order, the others follow in the order of the list of
  changes. Every task runs exactly once.
\<close>

definition completionOrder :: "DocumentChange list \<Rightarrow> nat list \<Rightarrow> nat list" where
  "completionOrder ops order =
     (let tasks = filter (\<lambda>i. isTextDocumentEdit (ops ! i)) [0..<length ops];
          first = filter (\<lambda>i. i \<in> set tasks) (remdups order)
      in first @ filter (\<lambda>i. i \<notin> set first) tasks)"

record ApplyWorkspaceEditResponse =
  response :: bool
  finalWorld :: World

text \<open>
  \<^verbatim>\<open>handleDocumentChanges\<close>, for a given arrival order of the buffers and a given
  distance \<open>delay\<close> between the first rejection and the \<^verbatim>\<open>catch\<close> handler. The
  answer is \<^verbatim>\<open>{ applied }\<close>; \<open>finalWorld\<close> is the world when every task has run.
\<close>

definition handleDocumentChanges ::
  "(string \<Rightarrow> string) \<Rightarrow> nat list \<Rightarrow> nat \<Rightarrow> DocumentChange list \<Rightarrow> World \<Rightarrow> ApplyWorkspaceEditResponse" where
  "handleDocumentChanges uriToPath order delay ops w =
     (let st = runTasks uriToPath ops (completionOrder ops order)
                 \<lparr>world = foldl (launch uriToPath) w ops, recorded = [],
                  rejection = None, applied = None, wait = delay\<rparr>
      in \<lparr>response = (applied st = Some True), finalWorld = world st\<rparr>)"

definition handle ::
  "(string \<Rightarrow> string) \<Rightarrow> nat list \<Rightarrow> nat \<Rightarrow> WorkspaceEdit \<Rightarrow> World \<Rightarrow> ApplyWorkspaceEditResponse" where
  "handle uriToPath order delay workspaceEdit w =
     handleDocumentChanges uriToPath order delay (normalizeChanges workspaceEdit) w"

text \<open>A world in which every path holds the same text and no file exists.\<close>

definition worldOfText :: "string \<Rightarrow> World" where
  "worldOfText text =
     \<lparr>buffers = (\<lambda>p. bufferOfText (Some p) text), files = Map.empty,
      notifications = [], unhandledRejections = []\<rparr>"

section \<open>Notions used in the properties\<close>

text \<open>
  \<^verbatim>\<open>Point.isLessThan\<close> and \<^verbatim>\<open>Point.isLessThanOrEqual\<close> of the editor, and the
  notions of the properties. Two ranges truly overlap when each starts before the
  other ends; they are apart or adjacent when one ends where the other starts, or
  before. An insertion (an empty range) at the start of a range that is not empty is
  adjacent to it and does not overlap it; two ranges are compatible when they are
  apart or adjacent and neither is such an insertion at the start of the other. A
  range covers the start of another when it starts at or before that start and ends
  after it: two ranges that truly overlap, and an edit with an insertion at its
  start, are the cases of this. The start of a range is in range when the buffer has
  its row and the row is at least as long as its column.
\<close>

definition isLessThan :: "Point \<Rightarrow> Point \<Rightarrow> bool" where
  "isLessThan p q = (Point_compare p q < 0)"

definition isLessThanOrEqual :: "Point \<Rightarrow> Point \<Rightarrow> bool" where
  "isLessThanOrEqual p q = (Point_compare p q \<le> 0)"

definition trulyOverlap :: "Range \<Rightarrow> Range \<Rightarrow> bool" where
  "trulyOverlap a b = (isLessThan (start a) (end' b) \<and> isLessThan (start b) (end' a))"

definition apartOrAdjacent :: "Range \<Rightarrow> Range \<Rightarrow> bool" where
  "apartOrAdjacent a b =
     (isLessThanOrEqual (end' a) (start b) \<or> isLessThanOrEqual (end' b) (start a))"

definition insertionAtStartOf :: "Range \<Rightarrow> Range \<Rightarrow> bool" where
  "insertionAtStartOf a b =
     (start a = end' a \<and> start a = start b \<and> isLessThan (start b) (end' b))"

definition coversStartOf :: "Range \<Rightarrow> Range \<Rightarrow> bool" where
  "coversStartOf a b =
     (isLessThanOrEqual (start a) (start b) \<and> isLessThan (start b) (end' a))"

definition compatible :: "Range \<Rightarrow> Range \<Rightarrow> bool" where
  "compatible a b =
     (apartOrAdjacent a b \<and> \<not> insertionAtStartOf a b \<and> \<not> insertionAtStartOf b a)"

definition wellFormed :: "Range \<Rightarrow> bool" where
  "wellFormed r = isLessThanOrEqual (start r) (end' r)"

definition startInRange :: "TextBuffer \<Rightarrow> Range \<Rightarrow> bool" where
  "startInRange b r =
     (case lineLengthForRow b (row (start r)) of
        None \<Rightarrow> False
      | Some n \<Rightarrow> column (start r) \<le> n)"

definition bufferPath :: "TextBuffer \<Rightarrow> string" where
  "bufferPath b = (case getPath b of None \<Rightarrow> [] | Some p \<Rightarrow> p)"

definition rowsWithoutLineFeed :: "TextBuffer \<Rightarrow> bool" where
  "rowsWithoutLineFeed b = list_all (\<lambda>l. CHR 0x0A \<notin> set l) (lines b)"

text \<open>
  In the loop over the sorted edits, \<open>p\<close> is the edit applied just before \<open>c\<close>:
  \<open>c\<close> ends before \<open>p\<close> starts, \<open>c\<close> starts before \<open>p\<close> starts.
\<close>

definition endsBefore :: "TextEdit \<Rightarrow> TextEdit \<Rightarrow> bool" where
  "endsBefore p c = (Point_compare (end' (oldRange c)) (start (oldRange p)) \<le> 0)"

definition startsBefore :: "TextEdit \<Rightarrow> TextEdit \<Rightarrow> bool" where
  "startsBefore p c = (Point_compare (start (oldRange c)) (start (oldRange p)) \<le> 0)"

fun withPrevious :: "TextEdit option \<Rightarrow> TextEdit list \<Rightarrow> TextEdit list" where
  "withPrevious None xs = xs"
| "withPrevious (Some p) xs = p # xs"

text \<open>
  The pair that raises the overlap error while an edit out of range is still to come:
  \<open>x\<close> was applied just before \<open>y\<close>, and \<open>y\<close> is that edit or comes before it.
\<close>

definition clashBefore :: "TextEdit \<Rightarrow> TextEdit \<Rightarrow> TextEdit \<Rightarrow> bool" where
  "clashBefore e x y = (startsBefore x y \<and> \<not> endsBefore x y \<and> (y = e \<or> startsBefore y e))"

section \<open>The stable sort and the order of the handler\<close>

subsection \<open>Sorting\<close>

lemma mset_insort_cmp: "mset (insort_cmp cmp x xs) = add_mset x (mset xs)"
  by (induction xs) auto

lemma mset_sort_cmp: "mset (sort_cmp cmp xs) = mset xs"
  by (induction xs) (auto simp: sort_cmp_def mset_insort_cmp)

lemma set_insort_cmp: "set (insort_cmp cmp x xs) = insert x (set xs)"
  by (induction xs) auto

lemma set_sort_cmp: "set (sort_cmp cmp xs) = set xs"
  by (induction xs) (auto simp: sort_cmp_def set_insort_cmp)

lemma sort_cmp_Cons: "sort_cmp cmp (x # xs) = insort_cmp cmp x (sort_cmp cmp xs)"
  by (simp add: sort_cmp_def)

lemma sort_cmp_Nil: "sort_cmp cmp [] = []"
  by (simp add: sort_cmp_def)

lemma sorted_wrt_insort_cmp:
  assumes total: "\<And>a b. \<not> cmp a b \<le> 0 \<Longrightarrow> cmp b a \<le> 0"
    and trans: "\<And>a b c. cmp a b \<le> 0 \<Longrightarrow> cmp b c \<le> 0 \<Longrightarrow> cmp a c \<le> 0"
    and "sorted_wrt (\<lambda>a b. cmp a b \<le> 0) xs"
  shows "sorted_wrt (\<lambda>a b. cmp a b \<le> 0) (insort_cmp cmp x xs)"
  using assms(3)
proof (induction xs)
  case Nil
  then show ?case by simp
next
  case (Cons y ys)
  show ?case
  proof (cases "cmp x y \<le> 0")
    case True
    with Cons.prems trans show ?thesis by auto
  next
    case False
    then have "cmp y x \<le> 0" by (rule total)
    with False Cons show ?thesis by (auto simp: set_insort_cmp)
  qed
qed

lemma sorted_wrt_sort_cmp:
  assumes "\<And>a b. \<not> cmp a b \<le> 0 \<Longrightarrow> cmp b a \<le> 0"
    and "\<And>a b c. cmp a b \<le> 0 \<Longrightarrow> cmp b c \<le> 0 \<Longrightarrow> cmp a c \<le> 0"
  shows "sorted_wrt (\<lambda>a b. cmp a b \<le> 0) (sort_cmp cmp xs)"
proof (induction xs)
  case Nil
  show ?case by (simp add: sort_cmp_Nil)
next
  case (Cons x xs)
  show ?case
    unfolding sort_cmp_Cons
    by (rule sorted_wrt_insort_cmp [OF assms(1) assms(2) Cons]) 
qed

text \<open>A relation that holds in both directions survives the sort.\<close>

lemma sorted_wrt_sym_insort_cmp:
  assumes "\<And>a b. Q a b \<Longrightarrow> Q b a"
  shows "sorted_wrt Q (insort_cmp cmp x xs) = sorted_wrt Q (x # xs)"
  using assms by (induction xs) (auto simp: set_insort_cmp)

lemma sorted_wrt_sym_sort_cmp:
  assumes "\<And>a b. Q a b \<Longrightarrow> Q b a"
  shows "sorted_wrt Q (sort_cmp cmp xs) = sorted_wrt Q xs"
  by (induction xs)
     (simp_all add: sort_cmp_Nil sort_cmp_Cons sorted_wrt_sym_insort_cmp [of Q, OF assms]
        set_sort_cmp)

lemma sorted_wrt_antisym_unique:
  assumes "sorted_wrt le xs" and "sorted_wrt le ys" and "mset xs = mset ys"
    and "\<And>a b. a \<in> set xs \<Longrightarrow> b \<in> set xs \<Longrightarrow> le a b \<Longrightarrow> le b a \<Longrightarrow> a = b"
  shows "xs = ys"
  using assms
proof (induction xs arbitrary: ys)
  case Nil
  then show ?case by simp
next
  case (Cons x xs)
  then obtain y ys' where ys: "ys = y # ys'" by (cases ys) auto
  have sets: "set (x # xs) = set (y # ys')"
    using Cons.prems(3) ys by (metis set_mset_mset)
  have "x = y"
  proof (rule ccontr)
    assume neq: "x \<noteq> y"
    with sets have "x \<in> set ys'" and "y \<in> set xs" by auto
    with Cons.prems(1,2) ys have "le y x" and "le x y" by auto
    with Cons.prems(4) [of x y] \<open>y \<in> set xs\<close> neq show False by auto
  qed
  with Cons.prems ys have "xs = ys'"
    by (intro Cons.IH) auto
  with \<open>x = y\<close> ys show ?case by simp
qed

subsection \<open>The order of the handler\<close>


lemma Point_compare_trans:
  "Point_compare p q \<le> 0 \<Longrightarrow> Point_compare q r \<le> 0 \<Longrightarrow> Point_compare p r \<le> 0"
  by (auto simp: Point_compare_def split: if_splits)


lemma Point_compare_antisym:
  "Point_compare p q \<le> 0 \<Longrightarrow> Point_compare q p \<le> 0 \<Longrightarrow> p = q"
  by (cases p; cases q) (auto simp: Point_compare_def split: if_splits)

lemma Point_compare_less_iff: "Point_compare p q < 0 \<longleftrightarrow> \<not> Point_compare q p \<le> 0"
  by (auto simp: Point_compare_def split: if_splits)

lemma Point_compare_greater_iff: "Point_compare p q > 0 \<longleftrightarrow> \<not> Point_compare p q \<le> 0"
  by (auto simp: Point_compare_def split: if_splits)

lemma reverseOrder_total: "\<not> reverseOrder a b \<le> 0 \<Longrightarrow> reverseOrder b a \<le> 0"
  by (auto simp: reverseOrder_def Range_compare_def Let_def Point_compare_def split: if_splits)

lemma reverseOrder_trans:
  "reverseOrder a b \<le> 0 \<Longrightarrow> reverseOrder b c \<le> 0 \<Longrightarrow> reverseOrder a c \<le> 0"
  by (auto simp: reverseOrder_def Range_compare_def Let_def Point_compare_def split: if_splits)

lemma reverseOrder_antisym:
  "reverseOrder a b \<le> 0 \<Longrightarrow> reverseOrder b a \<le> 0 \<Longrightarrow> oldRange a = oldRange b"
  by (cases "oldRange a"; cases "oldRange b"; cases "start (oldRange a)"; cases "start (oldRange b)";
      cases "end' (oldRange a)"; cases "end' (oldRange b)")
     (auto simp: reverseOrder_def Range_compare_def Let_def Point_compare_def split: if_splits)

lemma reverseOrder_start:
  "reverseOrder a b \<le> 0 \<Longrightarrow> Point_compare (start (oldRange b)) (start (oldRange a)) \<le> 0"
  by (auto simp: reverseOrder_def Range_compare_def Let_def Point_compare_def split: if_splits)

lemma sorted_reverseOrder:
  "sorted_wrt (\<lambda>a b. reverseOrder a b \<le> 0) (sort_cmp reverseOrder xs)"
  by (rule sorted_wrt_sort_cmp [OF reverseOrder_total reverseOrder_trans])

lemma sort_cmp_reverseOrder_permuted:
  assumes "mset xs = mset ys" and "inj_on oldRange (set xs)"
  shows "sort_cmp reverseOrder xs = sort_cmp reverseOrder ys"
proof (rule sorted_wrt_antisym_unique [where le = "\<lambda>a b. reverseOrder a b \<le> 0"])
  show "mset (sort_cmp reverseOrder xs) = mset (sort_cmp reverseOrder ys)"
    using assms(1) by (simp add: mset_sort_cmp)
next
  fix a b
  assume "a \<in> set (sort_cmp reverseOrder xs)" "b \<in> set (sort_cmp reverseOrder xs)"
    "reverseOrder a b \<le> 0" "reverseOrder b a \<le> 0"
  then show "a = b"
    using assms(2) reverseOrder_antisym [of a b] by (auto simp: set_sort_cmp dest: inj_onD)
qed (rule sorted_reverseOrder)+

lemma inj_on_convert:
  "inj_on range (set es) \<Longrightarrow> inj_on oldRange (set (map convertLsTextEdit es))"
  by (auto simp: inj_on_def convertLsTextEdit_def)

section \<open>Lemmas on the buffer and the loop\<close>

subsection \<open>The buffer under an edit\<close>

lemma splitLines_not_Nil [simp]: "splitLines s \<noteq> []"
  by (induction s) (auto split: list.splits)



lemma setTextInRange_fields [simp]:
  "checkpoints (setTextInRange b r t) = checkpoints b"
  "path (setTextInRange b r t) = path b"
  "nextCheckpointId (setTextInRange b r t) = nextCheckpointId b"
  by (simp_all add: setTextInRange_def Let_def)

lemma bufferPath_setTextInRange [simp]: "bufferPath (setTextInRange b r t) = bufferPath b"
  by (simp add: bufferPath_def getPath_def)

lemma startInRange_iff:
  "startInRange b r \<longleftrightarrow>
     row (start r) < length (lines b) \<and> column (start r) \<le> length (lines b ! row (start r))"
  by (simp add: startInRange_def lineLengthForRow_def)

lemma clipPosition_in_range:
  "startInRange b r \<Longrightarrow> clipPosition b (start r) = start r"
  by (auto simp: startInRange_iff clipPosition_def getLastRow_def lineForRow_def)

lemma setTextInRange_lines:
  assumes "startInRange b r"
  shows "\<exists>rest. lines (setTextInRange b r t)
           = take (row (start r)) (lines b)
             @ splitLines (take (column (start r)) (lines b ! row (start r)) @ rest)
             @ drop (Suc (row (clipPosition b (end' r)))) (lines b)"
  using assms
  by (auto simp: setTextInRange_def Let_def clipPosition_in_range lineForRow_def startInRange_iff)


lemma setTextInRange_rows_above:
  assumes "startInRange b r" and "k < row (start r)"
  shows "lines (setTextInRange b r t) ! k = lines b ! k"
proof -
  from setTextInRange_lines [OF assms(1), of t] obtain rest where
    "lines (setTextInRange b r t)
           = take (row (start r)) (lines b)
             @ splitLines (take (column (start r)) (lines b ! row (start r)) @ rest)
             @ drop (Suc (row (clipPosition b (end' r)))) (lines b)" by blast
  with assms show ?thesis by (simp add: nth_append startInRange_iff)
qed



subsection \<open>Validation\<close>

lemma validateEdit_error:
  "validateEdit b e prev = Inl err \<Longrightarrow>
     err = OverlapError (bufferPath b)
     \<or> err = OutOfRangeError (bufferPath b) (row (start (oldRange e)) + 1) (column (start (oldRange e)) + 1)"
  by (auto simp: validateEdit_def Let_def bufferPath_def split: if_splits option.splits)

lemma validateEdit_ok_iff:
  "(\<exists>u. validateEdit b e prev = Inr u) \<longleftrightarrow>
     (case prev of None \<Rightarrow> True
      | Some p \<Rightarrow> Point_compare (end' (oldRange e)) (start (oldRange p)) \<le> 0)
     \<and> startInRange b (oldRange e)"
  by (auto simp: validateEdit_def Let_def startInRange_def Point_compare_greater_iff
        split: option.splits)

lemma validateEdit_overlap_iff:
  "validateEdit b e prev = Inl (OverlapError q) \<longleftrightarrow>
     q = bufferPath b \<and>
     (case prev of None \<Rightarrow> False
      | Some p \<Rightarrow> \<not> Point_compare (end' (oldRange e)) (start (oldRange p)) \<le> 0)"
  by (auto simp: validateEdit_def Let_def bufferPath_def Point_compare_greater_iff
        split: option.splits)

lemma validateEdit_first_out_of_range:
  "\<not> startInRange b (oldRange e) \<Longrightarrow>
     validateEdit b e None
       = Inl (OutOfRangeError (bufferPath b) (row (start (oldRange e)) + 1) (column (start (oldRange e)) + 1))"
  by (auto simp: validateEdit_def Let_def startInRange_def bufferPath_def split: option.splits)

subsection \<open>The loop over the sorted edits\<close>

lemma reduceEdits_fields:
  "reduceEdits b prev xs = Inl (err, b') \<Longrightarrow>
     checkpoints b' = checkpoints b \<and> bufferPath b' = bufferPath b"
  "reduceEdits b prev xs = Inr b'' \<Longrightarrow>
     checkpoints b'' = checkpoints b \<and> bufferPath b'' = bufferPath b"
  by (induction b prev xs rule: reduceEdits.induct) (auto split: sum.splits)

lemma reduceEdits_error:
  "reduceEdits b prev xs = Inl (err, b') \<Longrightarrow>
     err = OverlapError (bufferPath b) \<or> (\<exists>r c. err = OutOfRangeError (bufferPath b) r c)"
proof (induction b prev xs rule: reduceEdits.induct)
  case (1 buffer previous)
  then show ?case by simp
next
  case (2 buffer previous current rest)
  show ?case
  proof (cases "validateEdit buffer current previous")
    case (Inl e)
    with 2 validateEdit_error [OF Inl] show ?thesis by auto
  next
    case (Inr u)
    with 2 show ?thesis by auto
  qed
qed




lemma sorted_startsBefore:
  "sorted_wrt startsBefore (sort_cmp reverseOrder xs)"
  by (rule sorted_wrt_mono_rel [OF _ sorted_reverseOrder])
     (auto simp: startsBefore_def dest: reverseOrder_start)

subsection \<open>Pairs of edits at different places of the list\<close>


subsection \<open>Compatible edits pass the overlap check\<close>


lemma Point_compare_refl: "Point_compare p p \<le> 0"
  by (simp add: Point_compare_def)





subsection \<open>Edits out of range and in range\<close>


lemma out_of_range_after_later_edit:
  assumes x: "startInRange b (oldRange x)" and y: "\<not> startInRange b (oldRange y)"
    and le: "startsBefore x y"
  shows "\<not> startInRange (setTextInRange b (oldRange x) t) (oldRange y)"
proof -
  have above: "row (start (oldRange y)) < row (start (oldRange x))"
    using x y le
    by (auto simp: startInRange_iff startsBefore_def Point_compare_def split: if_splits)
  with x have "lines (setTextInRange b (oldRange x) t) ! row (start (oldRange y))
      = lines b ! row (start (oldRange y))"
    by (rule setTextInRange_rows_above)
  moreover have "row (start (oldRange y)) < length (lines b)"
    using above x by (simp add: startInRange_iff)
  ultimately show ?thesis using y by (simp add: startInRange_iff)
qed

lemma reduceEdits_out_of_range_fails:
  assumes "e \<in> set xs" and "\<not> startInRange b (oldRange e)" and "sorted_wrt startsBefore xs"
  shows "\<exists>err b'. reduceEdits b prev xs = Inl (err, b')"
  using assms
proof (induction xs arbitrary: b prev)
  case Nil
  then show ?case by simp
next
  case (Cons x xs)
  show ?case
  proof (cases "validateEdit b x prev")
    case (Inl err)
    then show ?thesis by simp
  next
    case (Inr u)
    then have x: "startInRange b (oldRange x)"
      using validateEdit_ok_iff [of b x prev] by auto
    with Cons.prems have mem: "e \<in> set xs" by auto
    with Cons.prems have "startsBefore x e" by auto
    with x Cons.prems(2)
    have "\<not> startInRange (setTextInRange b (oldRange x) (atomNewText x)) (oldRange e)"
      by (intro out_of_range_after_later_edit)
    with mem Cons.prems(3)
    have "\<exists>err b'. reduceEdits (setTextInRange b (oldRange x) (atomNewText x)) (Some x) xs = Inl (err, b')"
      by (intro Cons.IH) auto
    with Inr show ?thesis by simp
  qed
qed


lemma reduceEdits_row_out_of_range:
  assumes "e \<in> set xs" and "length (lines b) \<le> row (start (oldRange e))"
    and "sorted_wrt startsBefore xs"
  shows "\<exists>r c b'. reduceEdits b None xs = Inl (OutOfRangeError (bufferPath b) r c, b')"
proof (cases xs)
  case Nil
  with assms show ?thesis by simp
next
  case (Cons x rest)
  have "startsBefore x e \<or> x = e" using assms(1,3) Cons by auto
  then have "row (start (oldRange e)) \<le> row (start (oldRange x))"
    by (auto simp: startsBefore_def Point_compare_def split: if_splits)
  with assms(2) have "\<not> startInRange b (oldRange x)" by (simp add: startInRange_iff)
  then show ?thesis using Cons by (simp add: validateEdit_first_out_of_range)
qed

subsection \<open>The batch as a whole\<close>

lemma createCheckpoint_eq:
  "createCheckpoint b = (nextCheckpointId b, snd (createCheckpoint b))"
  by (simp add: createCheckpoint_def)

lemma createCheckpoint_fields [simp]:
  "lines (snd (createCheckpoint b)) = lines b"
  "bufferPath (snd (createCheckpoint b)) = bufferPath b"
  "checkpoints (snd (createCheckpoint b)) = (nextCheckpointId b, lines b) # checkpoints b"
  by (simp_all add: createCheckpoint_def bufferPath_def getPath_def)

lemma startInRange_createCheckpoint [simp]:
  "startInRange (snd (createCheckpoint b)) r = startInRange b r"
  by (simp add: startInRange_iff)

lemma rowsWithoutLineFeed_createCheckpoint [simp]:
  "rowsWithoutLineFeed (snd (createCheckpoint b)) = rowsWithoutLineFeed b"
  by (simp add: rowsWithoutLineFeed_def)

lemma handleTextDocumentEdit_failure:
  assumes "reduceEdits (snd (createCheckpoint b)) None
             (sort_cmp reverseOrder (map convertLsTextEdit (edits d))) = Inl (err, b')"
  shows "fst (handleTextDocumentEdit b d) = Inl err"
    and "lines (snd (handleTextDocumentEdit b d)) = lines b"
proof -
  from reduceEdits_fields(1) [OF assms]
  have "checkpoints b' = (nextCheckpointId b, lines b) # checkpoints b" by simp
  then have r: "revertToCheckpoint b' (nextCheckpointId b)
      = (True, b'\<lparr>lines := lines b, checkpoints := checkpoints b\<rparr>)"
    by (simp add: revertToCheckpoint_def)
  show "fst (handleTextDocumentEdit b d) = Inl err"
    using assms
    by (subst handleTextDocumentEdit_def, subst createCheckpoint_eq) (simp add: Let_def)
  show "lines (snd (handleTextDocumentEdit b d)) = lines b"
    using assms r
    by (subst handleTextDocumentEdit_def, subst createCheckpoint_eq) (simp add: Let_def)
qed

lemma handleTextDocumentEdit_error_is_reduceEdits_error:
  assumes "fst (handleTextDocumentEdit b d) = Inl err"
  shows "\<exists>b'. reduceEdits (snd (createCheckpoint b)) None
             (sort_cmp reverseOrder (map convertLsTextEdit (edits d))) = Inl (err, b')"
  using assms
  by (subst (asm) handleTextDocumentEdit_def, subst (asm) createCheckpoint_eq)
     (auto simp: Let_def split: sum.splits)

lemma batch_error_kind:
  assumes "fst (handleTextDocumentEdit b d) = Inl err"
  shows "err = OverlapError (bufferPath b) \<or> (\<exists>r c. err = OutOfRangeError (bufferPath b) r c)"
proof -
  from handleTextDocumentEdit_error_is_reduceEdits_error [OF assms] obtain b' where
    "reduceEdits (snd (createCheckpoint b)) None
       (sort_cmp reverseOrder (map convertLsTextEdit (edits d))) = Inl (err, b')" by blast
  from reduceEdits_error [OF this] show ?thesis by simp
qed



lemma out_of_range_words:
  assumes "getLastRow b < row (start r) \<or> length (lineForRow b (row (start r))) < column (start r)"
  shows "\<not> startInRange b r"
  using assms by (auto simp: startInRange_iff getLastRow_def lineForRow_def)

lemma batch_out_of_range:
  assumes "e \<in> set (edits d)" and "\<not> startInRange b (range e)"
  shows "\<exists>err. fst (handleTextDocumentEdit b d) = Inl err"
    and "lines (snd (handleTextDocumentEdit b d)) = lines b"
proof -
  have "\<exists>err b'. reduceEdits (snd (createCheckpoint b)) None
       (sort_cmp reverseOrder (map convertLsTextEdit (edits d))) = Inl (err, b')"
  proof (rule reduceEdits_out_of_range_fails [where e = "convertLsTextEdit e"])
    show "convertLsTextEdit e \<in> set (sort_cmp reverseOrder (map convertLsTextEdit (edits d)))"
      using assms(1) by (simp add: set_sort_cmp)
    show "\<not> startInRange (snd (createCheckpoint b)) (oldRange (convertLsTextEdit e))"
      using assms(2) by (simp add: convertLsTextEdit_def)
    show "sorted_wrt startsBefore (sort_cmp reverseOrder (map convertLsTextEdit (edits d)))"
      by (rule sorted_startsBefore)
  qed
  then obtain err b' where "reduceEdits (snd (createCheckpoint b)) None
       (sort_cmp reverseOrder (map convertLsTextEdit (edits d))) = Inl (err, b')" by blast
  from handleTextDocumentEdit_failure [OF this]
  show "\<exists>err. fst (handleTextDocumentEdit b d) = Inl err"
    and "lines (snd (handleTextDocumentEdit b d)) = lines b" by auto
qed

lemma batch_row_out_of_range:
  assumes "e \<in> set (edits d)" and "getLastRow b < row (start (range e))"
  shows "\<exists>r c. fst (handleTextDocumentEdit b d) = Inl (OutOfRangeError (bufferPath b) r c)"
proof -
  have "\<exists>r c b'. reduceEdits (snd (createCheckpoint b)) None
       (sort_cmp reverseOrder (map convertLsTextEdit (edits d)))
         = Inl (OutOfRangeError (bufferPath (snd (createCheckpoint b))) r c, b')"
  proof (rule reduceEdits_row_out_of_range [where e = "convertLsTextEdit e"])
    show "convertLsTextEdit e \<in> set (sort_cmp reverseOrder (map convertLsTextEdit (edits d)))"
      using assms(1) by (simp add: set_sort_cmp)
    show "length (lines (snd (createCheckpoint b))) \<le> row (start (oldRange (convertLsTextEdit e)))"
      using assms(2) by (simp add: convertLsTextEdit_def getLastRow_def)
    show "sorted_wrt startsBefore (sort_cmp reverseOrder (map convertLsTextEdit (edits d)))"
      by (rule sorted_startsBefore)
  qed
  then obtain r c b' where "reduceEdits (snd (createCheckpoint b)) None
       (sort_cmp reverseOrder (map convertLsTextEdit (edits d)))
         = Inl (OutOfRangeError (bufferPath b) r c, b')" by auto
  from handleTextDocumentEdit_failure(1) [OF this] show ?thesis by blast
qed

subsection \<open>One edit covering the start of another\<close>






lemma coversStartOf_wellFormed:
  assumes "coversStartOf a b" and "wellFormed b"
  shows "trulyOverlap a b \<or> insertionAtStartOf b a"
proof (cases "isLessThan (start a) (end' b)")
  case True
  with assms(1) show ?thesis by (simp add: trulyOverlap_def coversStartOf_def)
next
  case False
  then have "Point_compare (end' b) (start a) \<le> 0"
    by (simp add: isLessThan_def Point_compare_less_iff)
  moreover have sb: "Point_compare (start b) (end' b) \<le> 0"
    using assms(2) by (simp add: wellFormed_def isLessThanOrEqual_def)
  moreover have ab: "Point_compare (start a) (start b) \<le> 0"
    using assms(1) by (simp add: coversStartOf_def isLessThanOrEqual_def)
  ultimately have "Point_compare (start b) (start a) \<le> 0"
    by (blast intro: Point_compare_trans)
  with ab have same: "start a = start b" by (rule Point_compare_antisym)
  with \<open>Point_compare (end' b) (start a) \<le> 0\<close> sb have "start b = end' b"
    by (auto intro: Point_compare_antisym)
  with same assms(1) show ?thesis
    by (simp add: insertionAtStartOf_def coversStartOf_def)
qed

text \<open>A pair found in the sorted list is a pair of the list as given.\<close>

lemma pair_of_sorted:
  assumes "\<not> sorted_wrt (\<lambda>a b. \<not> Q a b) (sort_cmp cmp xs)"
    and sym: "\<And>a b. Q a b \<Longrightarrow> Q b a"
  shows "\<exists>i j. i < length xs \<and> j < length xs \<and> i \<noteq> j \<and> Q (xs ! i) (xs ! j)"
proof -
  have "sorted_wrt (\<lambda>a b. \<not> Q a b) (sort_cmp cmp xs) = sorted_wrt (\<lambda>a b. \<not> Q a b) xs"
    by (rule sorted_wrt_sym_sort_cmp) (auto dest: sym)
  with assms(1) have "\<not> sorted_wrt (\<lambda>a b. \<not> Q a b) xs" by simp
  then obtain i j where "i < j" "j < length xs" "Q (xs ! i) (xs ! j)"
    by (auto simp: sorted_wrt_iff_nth_less)
  then show ?thesis by (intro exI [of _ i] exI [of _ j]) auto
qed


subsection \<open>What an error tells\<close>



lemma reduceEdits_overlap_names_pair:
  assumes "reduceEdits b prev xs = Inl (OverlapError q, b')"
    and "e \<in> set xs" and "\<not> startInRange b (oldRange e)"
    and "sorted_wrt startsBefore (withPrevious prev xs)"
  shows "\<not> sorted_wrt (\<lambda>x y. \<not> clashBefore e x y) (withPrevious prev xs)"
  using assms
proof (induction xs arbitrary: b prev)
  case Nil
  then show ?case by simp
next
  case (Cons x xs)
  have near: "x = e \<or> startsBefore x e"
    using Cons.prems(2,4) by (cases prev) auto
  show ?case
  proof (cases "validateEdit b x prev")
    case (Inl err)
    with Cons.prems(1) have "validateEdit b x prev = Inl (OverlapError q)" by simp
    then obtain p where p: "prev = Some p" "\<not> endsBefore p x"
      using validateEdit_overlap_iff [of b x prev q]
      by (cases prev) (auto simp: endsBefore_def)
    with Cons.prems(4) have "startsBefore p x" by simp
    with p near have "clashBefore e p x" by (auto simp: clashBefore_def)
    with p show ?thesis by auto
  next
    case (Inr u)
    let ?b = "setTextInRange b (oldRange x) (atomNewText x)"
    have x: "startInRange b (oldRange x)"
      using Inr validateEdit_ok_iff [of b x prev] by auto
    with Cons.prems(3) have "x \<noteq> e" by auto
    with Cons.prems(2) near have mem: "e \<in> set xs" and le: "startsBefore x e" by auto
    have "\<not> startInRange ?b (oldRange e)"
      using x Cons.prems(3) le by (rule out_of_range_after_later_edit)
    moreover have "reduceEdits ?b (Some x) xs = Inl (OverlapError q, b')"
      using Cons.prems(1) Inr by simp
    moreover have "sorted_wrt startsBefore (withPrevious (Some x) xs)"
      using Cons.prems(4) by (cases prev) auto
    ultimately have "\<not> sorted_wrt (\<lambda>x y. \<not> clashBefore e x y) (withPrevious (Some x) xs)"
      using mem by (intro Cons.IH)
    then show ?thesis by (cases prev) auto
  qed
qed




lemma clashBefore_covers:
  assumes "clashBefore e x y"
  shows "coversStartOf (oldRange y) (oldRange x)"
    and "Point_compare (start (oldRange e)) (start (oldRange y)) \<le> 0"
    and "Point_compare (start (oldRange e)) (start (oldRange x)) \<le> 0"
proof -
  from assms have xy: "Point_compare (start (oldRange y)) (start (oldRange x)) \<le> 0"
    and n: "\<not> Point_compare (end' (oldRange y)) (start (oldRange x)) \<le> 0"
    and ye: "y = e \<or> Point_compare (start (oldRange e)) (start (oldRange y)) \<le> 0"
    by (auto simp: clashBefore_def startsBefore_def endsBefore_def)
  from xy n show "coversStartOf (oldRange y) (oldRange x)"
    by (simp add: coversStartOf_def isLessThan_def isLessThanOrEqual_def Point_compare_less_iff)
  from ye show ey: "Point_compare (start (oldRange e)) (start (oldRange y)) \<le> 0"
    by (auto simp: Point_compare_refl)
  from ey xy show "Point_compare (start (oldRange e)) (start (oldRange x)) \<le> 0"
    by (rule Point_compare_trans)
qed

lemma batch_overlap_names_pair:
  assumes "fst (handleTextDocumentEdit b d) = Inl (OverlapError q)"
    and "e \<in> set (edits d)" and "\<not> startInRange b (range e)"
  shows "\<exists>i j. i < length (edits d) \<and> j < length (edits d) \<and> i \<noteq> j
           \<and> coversStartOf (range (edits d ! i)) (range (edits d ! j))
           \<and> isLessThanOrEqual (start (range e)) (start (range (edits d ! i)))
           \<and> isLessThanOrEqual (start (range e)) (start (range (edits d ! j)))"
proof -
  let ?e = "convertLsTextEdit e"
  let ?xs = "map convertLsTextEdit (edits d)"
  let ?Q = "\<lambda>x y. (coversStartOf (oldRange x) (oldRange y) \<or> coversStartOf (oldRange y) (oldRange x))
      \<and> Point_compare (start (oldRange ?e)) (start (oldRange x)) \<le> 0
      \<and> Point_compare (start (oldRange ?e)) (start (oldRange y)) \<le> 0"
  from handleTextDocumentEdit_error_is_reduceEdits_error [OF assms(1)] obtain b' where
    r: "reduceEdits (snd (createCheckpoint b)) None (sort_cmp reverseOrder ?xs)
          = Inl (OverlapError q, b')" by blast
  have "\<not> sorted_wrt (\<lambda>x y. \<not> clashBefore ?e x y) (withPrevious None (sort_cmp reverseOrder ?xs))"
  proof (rule reduceEdits_overlap_names_pair [OF r])
    show "?e \<in> set (sort_cmp reverseOrder ?xs)" using assms(2) by (simp add: set_sort_cmp)
    show "\<not> startInRange (snd (createCheckpoint b)) (oldRange ?e)"
      using assms(3) by (simp add: convertLsTextEdit_def)
    show "sorted_wrt startsBefore (withPrevious None (sort_cmp reverseOrder ?xs))"
      by (simp add: sorted_startsBefore)
  qed
  then obtain k l where kl: "k < l" "l < length (sort_cmp reverseOrder ?xs)"
    "clashBefore ?e (sort_cmp reverseOrder ?xs ! k) (sort_cmp reverseOrder ?xs ! l)"
    by (auto simp: sorted_wrt_iff_nth_less)
  from clashBefore_covers [OF kl(3)]
  have "?Q (sort_cmp reverseOrder ?xs ! k) (sort_cmp reverseOrder ?xs ! l)" by simp
  with kl(1,2) have ns: "\<not> sorted_wrt (\<lambda>x y. \<not> ?Q x y) (sort_cmp reverseOrder ?xs)"
    unfolding sorted_wrt_iff_nth_less by blast
  have sym: "?Q x y \<Longrightarrow> ?Q y x" for x y by blast
  have "\<exists>i j. i < length ?xs \<and> j < length ?xs \<and> i \<noteq> j \<and> ?Q (?xs ! i) (?xs ! j)"
    using ns sym by (rule pair_of_sorted)
  then obtain i j where ij: "i < length (edits d)" "j < length (edits d)" "i \<noteq> j"
    and q: "?Q (?xs ! i) (?xs ! j)"
    by auto
  from q ij(1,2) have cases: "coversStartOf (range (edits d ! i)) (range (edits d ! j))
      \<or> coversStartOf (range (edits d ! j)) (range (edits d ! i))"
    and si: "isLessThanOrEqual (start (range e)) (start (range (edits d ! i)))"
    and sj: "isLessThanOrEqual (start (range e)) (start (range (edits d ! j)))"
    by (auto simp: convertLsTextEdit_def isLessThanOrEqual_def)
  from cases show ?thesis
  proof
    assume "coversStartOf (range (edits d ! i)) (range (edits d ! j))"
    with ij si sj show ?thesis by (intro exI [of _ i] exI [of _ j]) simp
  next
    assume "coversStartOf (range (edits d ! j)) (range (edits d ! i))"
    with ij si sj show ?thesis by (intro exI [of _ j] exI [of _ i]) simp
  qed
qed

lemmas scenario_defs =
  mkEdit_def mkPoint_def mkBatch_def bufferOfText_def trulyOverlap_def isLessThan_def
  isLessThanOrEqual_def Point_compare_def compatible_def apartOrAdjacent_def
  insertionAtStartOf_def wellFormed_def startInRange_def lineLengthForRow_def
  rowsWithoutLineFeed_def bufferPath_def getPath_def getLastRow_def lineForRow_def
  coversStartOf_def

section \<open>Properties of the normaliser\<close>

text \<open>
  C6. A workspace edit in the legacy shape, a \<^verbatim>\<open>changes\<close> map and no
  \<^verbatim>\<open>documentChanges\<close> key, normalises to one text-document batch per key of the
  map, in the order of the keys: the document identifier is the key, the version is
  null, the edits are the key's edits. The per-batch shape that lists these batches
  with version null normalises to the same list.
\<close>

theorem legacy_shape_normalizes_to_null_version_batches:
  "normalizeChanges \<lparr>documentChanges = Absent, changes = Present m\<rparr>
     = map (\<lambda>(u, es). EditDocument \<lparr>textDocument = \<lparr>uri = u, version = None\<rparr>, edits = es\<rparr>) m
   \<and> normalizeChanges \<lparr>documentChanges = Absent, changes = Present m\<rparr>
     = normalizeChanges
         \<lparr>documentChanges =
            Present (map (\<lambda>(u, es). EditDocument \<lparr>textDocument = \<lparr>uri = u, version = None\<rparr>, edits = es\<rparr>) m),
          changes = Absent\<rparr>"
  by (simp add: normalizeChanges_def hasOwnProperty_def orEmpty_def legacyBatch_def
        case_prod_beta)

text \<open>
  C9. The presence of the \<^verbatim>\<open>documentChanges\<close> key decides the shape, not its value.
  When the key is there, whatever the \<^verbatim>\<open>changes\<close> property \<open>m\<close> is (absent or a
  map, empty or not), the result is what \<^verbatim>\<open>documentChanges\<close> holds: nothing when
  its value is undefined, the list \<open>cs\<close> (which may be empty) otherwise.
\<close>

theorem documentChanges_key_alone_selects_shape:
  "normalizeChanges \<lparr>documentChanges = Undefined, changes = m\<rparr> = []
   \<and> normalizeChanges \<lparr>documentChanges = Present cs, changes = m\<rparr> = cs"
  by (simp add: normalizeChanges_def hasOwnProperty_def orEmpty_def)

section \<open>Properties of the resource operations\<close>

text \<open>
  C7. \<^verbatim>\<open>Create\<close> does not resolve its URI. On a disk with the directory
  \<^verbatim>\<open>/tmp\<close> and a file \<^verbatim>\<open>/tmp/a\<close> that reads \<^verbatim>\<open>x\<close>, creating
  \<^verbatim>\<open>file:///tmp/a\<close> (whose path is \<^verbatim>\<open>/tmp/a\<close>) hands the URI itself to
  \<^verbatim>\<open>writeFile\<close>: the call fails, since there is no directory \<^verbatim>\<open>file:///tmp\<close>,
  and the file \<^verbatim>\<open>/tmp/a\<close> is not overwritten, as writing at the resolved path
  would do. \<^verbatim>\<open>Delete\<close> of the same URI does remove the file \<^verbatim>\<open>/tmp/a\<close>. Only
  where a directory of the name \<^verbatim>\<open>file:///tmp\<close> exists is a file created, and
  then under the name \<^verbatim>\<open>file:///tmp/a\<close>.
\<close>

theorem create_writes_at_unresolved_uri:
  "handleResourceOperation fileUriToPath (CreateFile ''file:///tmp/a'')
       [''/tmp'' \<mapsto> Directory, ''/tmp/a'' \<mapsto> File ''x'']
     = Inl (IoError ''file:///tmp/a'')
   \<and> fileUriToPath ''file:///tmp/a'' = ''/tmp/a''
   \<and> writeFile [''/tmp'' \<mapsto> Directory, ''/tmp/a'' \<mapsto> File ''x''] (fileUriToPath ''file:///tmp/a'') []
     = Inr [''/tmp'' \<mapsto> Directory, ''/tmp/a'' \<mapsto> File []]
   \<and> handleResourceOperation fileUriToPath (DeleteFile ''file:///tmp/a'')
       [''/tmp'' \<mapsto> Directory, ''/tmp/a'' \<mapsto> File ''x'']
     = Inr [''/tmp'' \<mapsto> Directory]
   \<and> handleResourceOperation fileUriToPath (CreateFile ''file:///tmp/a'')
       [''/tmp'' \<mapsto> Directory, ''/tmp/a'' \<mapsto> File ''x'', ''file:///tmp'' \<mapsto> Directory]
     = Inr [''/tmp'' \<mapsto> Directory, ''/tmp/a'' \<mapsto> File ''x'', ''file:///tmp'' \<mapsto> Directory,
            ''file:///tmp/a'' \<mapsto> File []]"
  by (simp add: writeFile_def unlink_def fileUriToPath_def dirname_def directoryExists_def
        fun_upd_twist)

section \<open>Properties of the document edit applier\<close>

text \<open>
  C8. On a document that reads \<^verbatim>\<open>hello world\<close>, the batch that replaces columns
  0 to 5 of row 0 by \<^verbatim>\<open>goodbye\<close> and columns 6 to 11 of row 0 by \<^verbatim>\<open>earth\<close>
  succeeds (it returns the checkpoint) and the document reads \<^verbatim>\<open>goodbye earth\<close>.
\<close>

theorem hello_world_scenario:
  "fst (handleTextDocumentEdit (bufferOfText p ''hello world'')
          (mkBatch u [mkEdit (0, 0) (0, 5) ''goodbye'', mkEdit (0, 6) (0, 11) ''earth'']))
     = Inr 1
   \<and> getText (snd (handleTextDocumentEdit (bufferOfText p ''hello world'')
          (mkBatch u [mkEdit (0, 0) (0, 5) ''goodbye'', mkEdit (0, 6) (0, 11) ''earth''])))
     = ''goodbye earth''"
  by code_simp

text \<open>
  C10. A batch without edits succeeds on every buffer: the result is never an error
  but the checkpoint created by \<^verbatim>\<open>createCheckpoint\<close>, and the rows and the text of
  the buffer are as before. The number returned is a checkpoint of the buffer: it is
  on top of its history with the rows from before the call, and reverting to it
  succeeds.
\<close>

theorem empty_batch_succeeds:
  "fst (handleTextDocumentEdit b (e\<lparr>edits := []\<rparr>)) = Inr (nextCheckpointId b)
   \<and> lines (snd (handleTextDocumentEdit b (e\<lparr>edits := []\<rparr>))) = lines b
   \<and> getText (snd (handleTextDocumentEdit b (e\<lparr>edits := []\<rparr>))) = getText b
   \<and> handleTextDocumentEdit b (e\<lparr>edits := []\<rparr>)
       = (Inr (fst (createCheckpoint b)), snd (createCheckpoint b))
   \<and> checkpoints (snd (handleTextDocumentEdit b (e\<lparr>edits := []\<rparr>)))
       = (nextCheckpointId b, lines b) # checkpoints b
   \<and> revertToCheckpoint (snd (handleTextDocumentEdit b (e\<lparr>edits := []\<rparr>))) (nextCheckpointId b)
       = (True, (snd (handleTextDocumentEdit b (e\<lparr>edits := []\<rparr>)))
                  \<lparr>lines := lines b, checkpoints := checkpoints b\<rparr>)"
  by (simp add: handleTextDocumentEdit_def createCheckpoint_def sort_cmp_def
        groupChangesSinceCheckpoint_def revertToCheckpoint_def getText_def)




text \<open>
  C4, as the code has it. When no two edits of the batch have the same range, the
  order in which the edits are given is irrelevant: two lists with the same edits give
  the same result and the same buffer. This covers every set of pairwise
  non-overlapping, in-range edits in which no two insertions share a position.
\<close>

theorem edit_order_is_irrelevant_for_distinct_ranges:
  "mset es = mset es' \<and> inj_on range (set es) \<longrightarrow>
     handleTextDocumentEdit b \<lparr>textDocument = d, edits = es\<rparr>
       = handleTextDocumentEdit b \<lparr>textDocument = d, edits = es'\<rparr>"
proof
  assume h: "mset es = mset es' \<and> inj_on range (set es)"
  then have "mset (map convertLsTextEdit es) = mset (map convertLsTextEdit es')"
    by (metis mset_map)
  with h have "sort_cmp reverseOrder (map convertLsTextEdit es)
      = sort_cmp reverseOrder (map convertLsTextEdit es')"
    by (intro sort_cmp_reverseOrder_permuted inj_on_convert) auto
  then show "handleTextDocumentEdit b \<lparr>textDocument = d, edits = es\<rparr>
       = handleTextDocumentEdit b \<lparr>textDocument = d, edits = es'\<rparr>"
    by (simp add: handleTextDocumentEdit_def)
qed

text \<open>
  The claim C4 as stated fails: two insertions at the same position do not overlap
  and are in range, the batch succeeds in either order, the sort is stable, and the
  text depends on which insertion comes first.
\<close>

theorem same_position_insertions_counterexample:
  "\<not> trulyOverlap (range (mkEdit (0, 0) (0, 0) ''a'')) (range (mkEdit (0, 0) (0, 0) ''b''))
   \<and> startInRange (bufferOfText None '''') (range (mkEdit (0, 0) (0, 0) ''a''))
   \<and> startInRange (bufferOfText None '''') (range (mkEdit (0, 0) (0, 0) ''b''))
   \<and> fst (handleTextDocumentEdit (bufferOfText None '''')
        (mkBatch ''file:///a'' [mkEdit (0, 0) (0, 0) ''a'', mkEdit (0, 0) (0, 0) ''b''])) = Inr 1
   \<and> fst (handleTextDocumentEdit (bufferOfText None '''')
        (mkBatch ''file:///a'' [mkEdit (0, 0) (0, 0) ''b'', mkEdit (0, 0) (0, 0) ''a''])) = Inr 1
   \<and> getText (snd (handleTextDocumentEdit (bufferOfText None '''')
        (mkBatch ''file:///a'' [mkEdit (0, 0) (0, 0) ''a'', mkEdit (0, 0) (0, 0) ''b'']))) = ''ba''
   \<and> getText (snd (handleTextDocumentEdit (bufferOfText None '''')
        (mkBatch ''file:///a'' [mkEdit (0, 0) (0, 0) ''b'', mkEdit (0, 0) (0, 0) ''a'']))) = ''ab''"
  by code_simp

text \<open>The theorem for C4 at the two edits of the \<^verbatim>\<open>hello world\<close> scenario.\<close>

theorem edit_order_is_irrelevant_for_distinct_ranges_witness:
  "mset [mkEdit (0, 0) (0, 5) ''goodbye'', mkEdit (0, 6) (0, 11) ''earth'']
     = mset [mkEdit (0, 6) (0, 11) ''earth'', mkEdit (0, 0) (0, 5) ''goodbye'']
   \<and> inj_on range (set [mkEdit (0, 0) (0, 5) ''goodbye'', mkEdit (0, 6) (0, 11) ''earth''])
   \<and> handleTextDocumentEdit (bufferOfText None ''hello world'')
        (mkBatch ''file:///a'' [mkEdit (0, 0) (0, 5) ''goodbye'', mkEdit (0, 6) (0, 11) ''earth''])
      = handleTextDocumentEdit (bufferOfText None ''hello world'')
        (mkBatch ''file:///a'' [mkEdit (0, 6) (0, 11) ''earth'', mkEdit (0, 0) (0, 5) ''goodbye''])"
proof -
  let ?es = "[mkEdit (0, 0) (0, 5) ''goodbye'', mkEdit (0, 6) (0, 11) ''earth'']"
  let ?es' = "[mkEdit (0, 6) (0, 11) ''earth'', mkEdit (0, 0) (0, 5) ''goodbye'']"
  have h: "mset ?es = mset ?es' \<and> inj_on range (set ?es)"
    by (simp add: scenario_defs)
  with edit_order_is_irrelevant_for_distinct_ranges
         [of ?es ?es' "bufferOfText None ''hello world''" "\<lparr>uri = ''file:///a'', version = None\<rparr>"]
  show ?thesis by (simp add: mkBatch_def)
qed

text \<open>
  C5, as the code has it. A batch with an edit whose start row exceeds the last row of
  the buffer, or whose start column exceeds the length of its row, fails and leaves the
  rows and the text of the document as they were. The error is the out-of-range error
  when the start row exceeds the last row. Otherwise it is the out-of-range error, or
  the overlap error, and this only when two edits of the batch that both start at or
  after the start of that edit are in each other's way: one of them starts at or before
  the start of the other and ends after it.
\<close>

theorem out_of_range_edit_fails_batch:
  "e \<in> set es
   \<and> (getLastRow b < row (start (range e))
      \<or> length (lineForRow b (row (start (range e)))) < column (start (range e))) \<longrightarrow>
     ((fst (handleTextDocumentEdit b \<lparr>textDocument = d, edits = es\<rparr>) = Inl (OverlapError (bufferPath b))
       \<and> (\<exists>i j. i < length es \<and> j < length es \<and> i \<noteq> j
             \<and> coversStartOf (range (es ! i)) (range (es ! j))
             \<and> isLessThanOrEqual (start (range e)) (start (range (es ! i)))
             \<and> isLessThanOrEqual (start (range e)) (start (range (es ! j)))))
      \<or> (\<exists>r c. fst (handleTextDocumentEdit b \<lparr>textDocument = d, edits = es\<rparr>)
                 = Inl (OutOfRangeError (bufferPath b) r c)))
     \<and> lines (snd (handleTextDocumentEdit b \<lparr>textDocument = d, edits = es\<rparr>)) = lines b
     \<and> getText (snd (handleTextDocumentEdit b \<lparr>textDocument = d, edits = es\<rparr>)) = getText b
     \<and> (getLastRow b < row (start (range e)) \<longrightarrow>
          (\<exists>r c. fst (handleTextDocumentEdit b \<lparr>textDocument = d, edits = es\<rparr>)
                 = Inl (OutOfRangeError (bufferPath b) r c)))"
proof (intro impI conjI)
  let ?d = "\<lparr>textDocument = d, edits = es\<rparr>"
  assume h: "e \<in> set es
   \<and> (getLastRow b < row (start (range e))
      \<or> length (lineForRow b (row (start (range e)))) < column (start (range e)))"
  then have mem: "e \<in> set (edits ?d)" and out: "\<not> startInRange b (range e)"
    using out_of_range_words [of b "range e"] by auto
  from batch_out_of_range(1) [OF mem out] obtain err where
    err: "fst (handleTextDocumentEdit b ?d) = Inl err" by blast
  from batch_error_kind [OF err] err
  have "fst (handleTextDocumentEdit b ?d) = Inl (OverlapError (bufferPath b))
       \<or> (\<exists>r c. fst (handleTextDocumentEdit b ?d) = Inl (OutOfRangeError (bufferPath b) r c))"
    by auto
  then show "(fst (handleTextDocumentEdit b ?d) = Inl (OverlapError (bufferPath b))
       \<and> (\<exists>i j. i < length es \<and> j < length es \<and> i \<noteq> j
             \<and> coversStartOf (range (es ! i)) (range (es ! j))
             \<and> isLessThanOrEqual (start (range e)) (start (range (es ! i)))
             \<and> isLessThanOrEqual (start (range e)) (start (range (es ! j)))))
      \<or> (\<exists>r c. fst (handleTextDocumentEdit b ?d) = Inl (OutOfRangeError (bufferPath b) r c))"
  proof
    assume ov: "fst (handleTextDocumentEdit b ?d) = Inl (OverlapError (bufferPath b))"
    from batch_overlap_names_pair [OF ov mem out] ov show ?thesis by simp
  qed simp
  show same: "lines (snd (handleTextDocumentEdit b ?d)) = lines b"
    by (rule batch_out_of_range(2) [OF mem out])
  then show "getText (snd (handleTextDocumentEdit b ?d)) = getText b"
    by (simp add: getText_def)
  show "\<exists>r c. fst (handleTextDocumentEdit b ?d) = Inl (OutOfRangeError (bufferPath b) r c)"
    if "getLastRow b < row (start (range e))"
    using batch_row_out_of_range [OF mem that] .
qed

text \<open>
  The claim C5 as stated fails: the edit at column 9 of row 0 is out of range, but two
  edits on row 1 are met first and the error is the overlap error. This happens with two
  edits that truly overlap, columns 0 to 3 and 1 to 2, and with an insertion at column 3
  before a replacement of columns 3 to 5, where no two ranges truly overlap.
\<close>

theorem overlap_error_before_out_of_range_counterexample:
  "length (lineForRow (bufferOfText None (''hello'' @ [CHR 0x0A] @ ''world'')) 0) < 9
   \<and> fst (handleTextDocumentEdit (bufferOfText None (''hello'' @ [CHR 0x0A] @ ''world''))
        (mkBatch ''file:///a''
           [mkEdit (0, 9) (0, 9) ''y'', mkEdit (1, 0) (1, 3) ''x'', mkEdit (1, 1) (1, 2) ''z'']))
       = Inl (OverlapError [])
   \<and> \<not> trulyOverlap (range (mkEdit (0, 9) (0, 9) ''y'')) (range (mkEdit (1, 3) (1, 3) ''x''))
   \<and> \<not> trulyOverlap (range (mkEdit (0, 9) (0, 9) ''y'')) (range (mkEdit (1, 3) (1, 5) ''z''))
   \<and> \<not> trulyOverlap (range (mkEdit (1, 3) (1, 3) ''x'')) (range (mkEdit (1, 3) (1, 5) ''z''))
   \<and> fst (handleTextDocumentEdit (bufferOfText None (''hello'' @ [CHR 0x0A] @ ''world''))
        (mkBatch ''file:///a''
           [mkEdit (0, 9) (0, 9) ''y'', mkEdit (1, 3) (1, 3) ''x'', mkEdit (1, 3) (1, 5) ''z'']))
       = Inl (OverlapError [])"
  by code_simp

text \<open>
  The theorem for C5 at a column beyond the end of row 1, with two overlapping edits
  on row 0 that start before it and are never looked at, and at a row the buffer does
  not have.
\<close>

theorem out_of_range_edit_fails_batch_witness:
  "mkEdit (1, 9) (1, 9) ''y''
     \<in> set [mkEdit (1, 9) (1, 9) ''y'', mkEdit (0, 0) (0, 3) ''x'', mkEdit (0, 1) (0, 2) ''z'']
   \<and> length (lineForRow (bufferOfText None (''hello'' @ [CHR 0x0A] @ ''world'')) 1) < 9
   \<and> trulyOverlap (range (mkEdit (0, 0) (0, 3) ''x'')) (range (mkEdit (0, 1) (0, 2) ''z''))
   \<and> (\<exists>r c. fst (handleTextDocumentEdit (bufferOfText None (''hello'' @ [CHR 0x0A] @ ''world''))
        (mkBatch ''file:///a''
           [mkEdit (1, 9) (1, 9) ''y'', mkEdit (0, 0) (0, 3) ''x'', mkEdit (0, 1) (0, 2) ''z'']))
       = Inl (OutOfRangeError [] r c))
   \<and> lines (snd (handleTextDocumentEdit (bufferOfText None (''hello'' @ [CHR 0x0A] @ ''world''))
        (mkBatch ''file:///a''
           [mkEdit (1, 9) (1, 9) ''y'', mkEdit (0, 0) (0, 3) ''x'', mkEdit (0, 1) (0, 2) ''z''])))
       = [''hello'', ''world'']
   \<and> getLastRow (bufferOfText None ''hello'') < 4
   \<and> (\<exists>r c. fst (handleTextDocumentEdit (bufferOfText None ''hello'')
        (mkBatch ''file:///a'' [mkEdit (4, 0) (4, 0) ''y'']))
       = Inl (OutOfRangeError [] r c))"
proof -
  let ?b = "bufferOfText None (''hello'' @ [CHR 0x0A] @ ''world'')"
  let ?d = "\<lparr>uri = ''file:///a'', version = None\<rparr>"
  let ?e = "mkEdit (1, 9) (1, 9) ''y''"
  let ?es = "[?e, mkEdit (0, 0) (0, 3) ''x'', mkEdit (0, 1) (0, 2) ''z'']"
  let ?b' = "bufferOfText None ''hello''"
  let ?e' = "mkEdit (4, 0) (4, 0) ''y''"
  have column: "?e \<in> set ?es
     \<and> (getLastRow ?b < row (start (range ?e))
        \<or> length (lineForRow ?b (row (start (range ?e)))) < column (start (range ?e)))"
    by (simp add: scenario_defs)
  have nopair: "\<not> (\<exists>i j. i < length ?es \<and> j < length ?es \<and> i \<noteq> j
             \<and> coversStartOf (range (?es ! i)) (range (?es ! j))
             \<and> isLessThanOrEqual (start (range ?e)) (start (range (?es ! i)))
             \<and> isLessThanOrEqual (start (range ?e)) (start (range (?es ! j))))"
  proof -
    have "i = 0" if "i < length ?es"
      and "isLessThanOrEqual (start (range ?e)) (start (range (?es ! i)))" for i
      using that by (auto simp: scenario_defs less_Suc_eq)
    then show ?thesis by blast
  qed
  have facts: "bufferPath ?b = []" "lines ?b = [''hello'', ''world'']" "bufferPath ?b' = []"
    "length (lineForRow ?b 1) < 9" "getLastRow ?b' < 4"
    "trulyOverlap (range (mkEdit (0, 0) (0, 3) ''x'')) (range (mkEdit (0, 1) (0, 2) ''z''))"
    by (simp_all add: scenario_defs)
  have row: "?e' \<in> set [?e']
     \<and> (getLastRow ?b' < row (start (range ?e'))
        \<or> length (lineForRow ?b' (row (start (range ?e')))) < column (start (range ?e')))"
    "getLastRow ?b' < row (start (range ?e'))"
    by (simp_all add: scenario_defs)
  from out_of_range_edit_fails_batch [of ?e ?es ?b ?d] column nopair
  have "(\<exists>r c. fst (handleTextDocumentEdit ?b \<lparr>textDocument = ?d, edits = ?es\<rparr>)
          = Inl (OutOfRangeError (bufferPath ?b) r c))
     \<and> lines (snd (handleTextDocumentEdit ?b \<lparr>textDocument = ?d, edits = ?es\<rparr>)) = lines ?b"
    by blast
  then have first: "(\<exists>r c. fst (handleTextDocumentEdit ?b \<lparr>textDocument = ?d, edits = ?es\<rparr>)
          = Inl (OutOfRangeError [] r c))
     \<and> lines (snd (handleTextDocumentEdit ?b \<lparr>textDocument = ?d, edits = ?es\<rparr>))
          = [''hello'', ''world'']"
    by (simp only: facts)
  from out_of_range_edit_fails_batch [of ?e' "[?e']" ?b' ?d] row
  have "\<exists>r c. fst (handleTextDocumentEdit ?b' \<lparr>textDocument = ?d, edits = [?e']\<rparr>)
          = Inl (OutOfRangeError (bufferPath ?b') r c)"
    by blast
  then have second: "\<exists>r c. fst (handleTextDocumentEdit ?b' \<lparr>textDocument = ?d, edits = [?e']\<rparr>)
          = Inl (OutOfRangeError [] r c)"
    by (simp only: facts)
  from first second facts show ?thesis by (simp add: mkBatch_def)
qed

section \<open>Properties of the coordinator\<close>

text \<open>
  After a successful batch the checkpoint it returned is on top of the history of the
  buffer and holds the rows from before the batch, so reverting to it restores them.
\<close>

lemma handleTextDocumentEdit_success:
  assumes "fst (handleTextDocumentEdit b d) = Inr c"
  shows "c = nextCheckpointId b"
    and "\<exists>older. checkpoints (snd (handleTextDocumentEdit b d)) = (c, lines b) # older"
proof -
  from assms obtain b' where r: "reduceEdits (snd (createCheckpoint b)) None
             (sort_cmp reverseOrder (map convertLsTextEdit (edits d))) = Inr b'"
    by (subst (asm) handleTextDocumentEdit_def, subst (asm) createCheckpoint_eq)
       (auto simp: Let_def split: sum.splits)
  from reduceEdits_fields(2) [OF r]
  have cp: "checkpoints b' = (nextCheckpointId b, lines b) # checkpoints b" by simp
  then have g: "groupChangesSinceCheckpoint b' (nextCheckpointId b) = (True, b')"
    by (simp add: groupChangesSinceCheckpoint_def)
  have h: "handleTextDocumentEdit b d = (Inr (nextCheckpointId b), b')"
    using r g
    by (subst handleTextDocumentEdit_def, subst createCheckpoint_eq) (simp add: Let_def)
  with assms show "c = nextCheckpointId b" by simp
  with h cp show "\<exists>older. checkpoints (snd (handleTextDocumentEdit b d)) = (c, lines b) # older"
    by simp
qed

lemma revert_after_success:
  assumes "fst (handleTextDocumentEdit b d) = Inr c"
  shows "lines (snd (revertToCheckpoint (snd (handleTextDocumentEdit b d)) c)) = lines b"
  using handleTextDocumentEdit_success(2) [OF assms]
  by (auto simp: revertToCheckpoint_def)

text \<open>
  A call that consists of resource operations only answers \<^verbatim>\<open>applied: true\<close>,
  whatever becomes of the operations.
\<close>

lemma only_resource_operations_always_applied:
  assumes "list_all (\<lambda>c. \<not> isTextDocumentEdit c) ops"
  shows "response (handleDocumentChanges uriToPath order delay ops w) = True"
proof -
  have "filter (\<lambda>i. isTextDocumentEdit (ops ! i)) [0..<length ops] = []"
    using assms by (auto simp: filter_empty_conv list_all_length)
  then have "completionOrder ops order = []"
    by (simp add: completionOrder_def Let_def)
  then show ?thesis
    by (simp add: handleDocumentChanges_def Let_def settle_def)
qed

text \<open>
  When the buffer of the successful batch arrives before the buffer of the failing
  one, the successful batch is recorded by the time the \<^verbatim>\<open>catch\<close> handler runs,
  and it is reverted.
\<close>

lemma earlier_batch_is_reverted:
  assumes ok: "fst (handleTextDocumentEdit (buffers w (uriToPath (uri (textDocument a)))) a) = Inr c"
    and bad: "fst (handleTextDocumentEdit (buffers w (uriToPath (uri (textDocument b)))) b) = Inl err"
    and other: "uriToPath (uri (textDocument a)) \<noteq> uriToPath (uri (textDocument b))"
  shows "response (handleDocumentChanges uriToPath [] delay [EditDocument a, EditDocument b] w) = False"
    and "lines (buffers (finalWorld
           (handleDocumentChanges uriToPath [] delay [EditDocument a, EditDocument b] w))
             (uriToPath (uri (textDocument a))))
         = lines (buffers w (uriToPath (uri (textDocument a))))"
proof -
  let ?pa = "uriToPath (uri (textDocument a))"
  let ?pb = "uriToPath (uri (textDocument b))"
  have order: "completionOrder [EditDocument a, EditDocument b] [] = [0, 1]"
    by (simp add: completionOrder_def Let_def upt_rec)
  obtain ba where ha: "handleTextDocumentEdit (buffers w ?pa) a = (Inr c, ba)"
    using ok by (cases "handleTextDocumentEdit (buffers w ?pa) a") auto
  obtain bb where hb: "handleTextDocumentEdit (buffers w ?pb) b = (Inl err, bb)"
    using bad by (cases "handleTextDocumentEdit (buffers w ?pb) b") auto
  have rev: "lines (snd (revertToCheckpoint ba c)) = lines (buffers w ?pa)"
    using revert_after_success [OF ok] ha by simp
  show "response (handleDocumentChanges uriToPath [] delay [EditDocument a, EditDocument b] w) = False"
    using other ha hb
    by (simp add: handleDocumentChanges_def order Let_def launch_def resume_def afterTask_def
          settle_def catchHandler_def)
  show "lines (buffers (finalWorld
           (handleDocumentChanges uriToPath [] delay [EditDocument a, EditDocument b] w)) ?pa)
         = lines (buffers w ?pa)"
    using other ha hb rev
    by (simp add: handleDocumentChanges_def order Let_def launch_def resume_def afterTask_def
          settle_def catchHandler_def revertRecorded_def)
qed

text \<open>
  C1. Two batches, the first for document \<^verbatim>\<open>/b\<close> with an edit on a row the
  document does not have, the second for document \<^verbatim>\<open>/a\<close> with a valid insertion;
  the buffers arrive in this order, each in its own turn of the event loop. The first
  task is rejected and the \<^verbatim>\<open>catch\<close> handler runs while nothing is recorded yet:
  the answer is \<^verbatim>\<open>applied: false\<close>, and the second batch, applied afterwards,
  stays in document \<^verbatim>\<open>/a\<close>. On its own the batch for \<^verbatim>\<open>/a\<close> succeeds and the
  batch for \<^verbatim>\<open>/b\<close> fails with the out-of-range error.
\<close>

theorem failed_batch_first_leaves_later_batch_applied:
  "response (handleDocumentChanges fileUriToPath [] 0
      [EditDocument (mkBatch ''file:///b'' [mkEdit (5, 0) (5, 0) ''x'']),
       EditDocument (mkBatch ''file:///a'' [mkEdit (0, 0) (0, 0) ''Q''])]
      (worldOfText ''abc'')) = False
   \<and> getText (buffers (finalWorld (handleDocumentChanges fileUriToPath [] 0
      [EditDocument (mkBatch ''file:///b'' [mkEdit (5, 0) (5, 0) ''x'']),
       EditDocument (mkBatch ''file:///a'' [mkEdit (0, 0) (0, 0) ''Q''])]
      (worldOfText ''abc''))) ''/a'') = ''Qabc''
   \<and> getText (buffers (worldOfText ''abc'') ''/a'') = ''abc''
   \<and> fst (handleTextDocumentEdit (buffers (worldOfText ''abc'') ''/a'')
        (mkBatch ''file:///a'' [mkEdit (0, 0) (0, 0) ''Q''])) = Inr 1
   \<and> fst (handleTextDocumentEdit (buffers (worldOfText ''abc'') ''/b'')
        (mkBatch ''file:///b'' [mkEdit (5, 0) (5, 0) ''x''])) = Inl (OutOfRangeError ''/b'' 6 1)"
  by code_simp

text \<open>
  C2. A batch for document \<^verbatim>\<open>/a\<close> and the renaming of a file that does not
  exist: the renaming fails, but its promise is dropped, so the answer is
  \<^verbatim>\<open>applied: true\<close>, the edit stays in the document and the failure is an
  unhandled rejection.
\<close>

theorem failed_rename_is_not_awaited:
  "handleResourceOperation fileUriToPath (RenameFile ''file:///x'' ''file:///y'') Map.empty
     = Inl (IoError ''/x'')
   \<and> response (handleDocumentChanges fileUriToPath [] 0
      [EditDocument (mkBatch ''file:///a'' [mkEdit (0, 0) (0, 0) ''Q'']),
       RenameFile ''file:///x'' ''file:///y'']
      (worldOfText ''abc'')) = True
   \<and> getText (buffers (finalWorld (handleDocumentChanges fileUriToPath [] 0
      [EditDocument (mkBatch ''file:///a'' [mkEdit (0, 0) (0, 0) ''Q'']),
       RenameFile ''file:///x'' ''file:///y'']
      (worldOfText ''abc''))) ''/a'') = ''Qabc''
   \<and> unhandledRejections (finalWorld (handleDocumentChanges fileUriToPath [] 0
      [EditDocument (mkBatch ''file:///a'' [mkEdit (0, 0) (0, 0) ''Q'']),
       RenameFile ''file:///x'' ''file:///y'']
      (worldOfText ''abc''))) = [IoError ''/x'']"
proof (intro conjI)
  show "handleResourceOperation fileUriToPath (RenameFile ''file:///x'' ''file:///y'') Map.empty
     = Inl (IoError ''/x'')"
    by (simp add: rename_def fileUriToPath_def)
qed code_simp+

end
